theory Spec2Isabelle
  imports Complex_Main "HOL-Library.Sublist"
begin

section \<open>Python strings\<close>

text \<open>
  A Python \<open>str\<close> is a sequence of Unicode code points, and every index the script
  computes (\<open>find\<close>, \<open>rfind\<close>, slices) counts code points. A string is therefore a
  list of code points, each a natural number. \<open>str\<close> turns a literal of the theory
  into such a list; the script's literals are ASCII apart from the two arrows and
  check marks in its messages, which are written as numbers.
\<close>

type_synonym pystr = "nat list"

definition str :: "string \<Rightarrow> pystr" where
  "str s = map of_char s"

text \<open>
  \<open>str.strip()\<close> without argument removes leading and trailing white space, which for
  a \<open>str\<close> is the set of code points below.
\<close>

definition is_space :: "nat \<Rightarrow> bool" where
  "is_space c =
     ((9 \<le> c \<and> c \<le> 13) \<or> (28 \<le> c \<and> c \<le> 32) \<or> c = 133 \<or> c = 160 \<or> c = 5760
      \<or> (8192 \<le> c \<and> c \<le> 8202) \<or> c = 8232 \<or> c = 8233 \<or> c = 8239 \<or> c = 8287
      \<or> c = 12288)"

definition strip :: "pystr \<Rightarrow> pystr" where
  "strip s = rev (dropWhile is_space (rev (dropWhile is_space s)))"

text \<open>\<open>s.rstrip(chars)\<close> removes the trailing code points that occur in \<open>chars\<close>.\<close>

definition rstrip :: "pystr \<Rightarrow> pystr \<Rightarrow> pystr" where
  "rstrip s chars = rev (dropWhile (\<lambda>c. c \<in> set chars) (rev s))"

text \<open>
  \<open>s.find(sub)\<close> is the lowest index at which \<open>sub\<close> occurs in \<open>s\<close>, and \<open>-1\<close> when
  it does not occur.
\<close>

fun find_str :: "pystr \<Rightarrow> pystr \<Rightarrow> int" where
  "find_str [] sub = (if sub = [] then 0 else -1)"
| "find_str (c # s) sub =
     (if prefix sub (c # s) then 0
      else (let r = find_str s sub in if r = -1 then -1 else r + 1))"

text \<open>
  Slice bounds are clamped as Python does: a negative bound counts from the end, and
  the result is kept inside \<open>0..len\<close>.
\<close>

definition clamp_index :: "nat \<Rightarrow> int \<Rightarrow> nat" where
  "clamp_index n i = (if i < 0 then nat (max 0 (i + int n)) else min (nat i) n)"

definition slice :: "pystr \<Rightarrow> int \<Rightarrow> int \<Rightarrow> pystr" where
  "slice s i j = (let a = clamp_index (length s) i; b = clamp_index (length s) j
                  in take (b - a) (drop a s))"

text \<open>
  \<open>s.rfind(sub, start, end)\<close> is the highest index of an occurrence of \<open>sub\<close> that
  lies inside \<open>s[start:end]\<close>, and \<open>-1\<close> when there is none. \<open>rfind_all\<close> is the
  search in a whole string.
\<close>

fun rfind_all :: "pystr \<Rightarrow> pystr \<Rightarrow> int" where
  "rfind_all [] sub = (if sub = [] then 0 else -1)"
| "rfind_all (c # s) sub =
     (let r = rfind_all s sub
      in if r \<noteq> -1 then r + 1 else if prefix sub (c # s) then 0 else -1)"

definition rfind :: "pystr \<Rightarrow> pystr \<Rightarrow> int \<Rightarrow> int \<Rightarrow> int" where
  "rfind s sub i j =
     (let n = int (length s); a = (if i < 0 then max 0 (i + n) else i);
          r = rfind_all (slice s i j) sub
      in if n < a \<or> r = -1 then -1 else r + a)"

text \<open>\<open>s.startswith(p)\<close> and \<open>s.endswith(p)\<close>.\<close>

definition startswith :: "pystr \<Rightarrow> pystr \<Rightarrow> bool" where
  "startswith s p = prefix p s"

definition endswith :: "pystr \<Rightarrow> pystr \<Rightarrow> bool" where
  "endswith s p = suffix p s"

text \<open>
  \<open>s.replace(old, new)\<close> replaces the occurrences of \<open>old\<close> from left to right,
  without overlap; an empty \<open>old\<close> matches before every code point and at the end.
\<close>

function replace :: "pystr \<Rightarrow> pystr \<Rightarrow> pystr \<Rightarrow> pystr" where
  "replace s old new =
     (if old = [] then new @ concat (map (\<lambda>c. c # new) s)
      else if s = [] then []
      else if prefix old s then new @ replace (drop (length old) s) old new
      else hd s # replace (tl s) old new)"
  by pat_completeness auto
termination
  by (relation "measure (\<lambda>(s, old, new). length s)") auto

text \<open>\<open>str(n)\<close> for an integer: its decimal digits, with a minus sign when negative.\<close>

fun digits :: "nat \<Rightarrow> pystr" where
  "digits n = (if n < 10 then [48 + n] else digits (n div 10) @ [48 + n mod 10])"

definition str_of_int :: "int \<Rightarrow> pystr" where
  "str_of_int i = (if i < 0 then 45 # digits (nat (- i)) else digits (nat i))"

text \<open>
  \<open>x or d\<close> on strings: the empty string is false, so the default \<open>d\<close> is taken.
\<close>

definition or_else :: "pystr \<Rightarrow> pystr \<Rightarrow> pystr" where
  "or_else x d = (if x = [] then d else x)"

text \<open>
  \<open>os.path.join(a, b)\<close> for two components, as \<open>posixpath\<close> defines it.
\<close>

definition path_join :: "pystr \<Rightarrow> pystr \<Rightarrow> pystr" where
  "path_join a b =
     (if startswith b (str ''/'') then b
      else if a = [] \<or> endswith a (str ''/'') then a @ b
      else a @ str ''/'' @ b)"

text \<open>
  \<open>os.path.dirname(p)\<close>, as \<open>posixpath\<close> defines it: everything up to the last slash,
  without trailing slashes unless it consists of slashes only.
\<close>

definition dirname :: "pystr \<Rightarrow> pystr" where
  "dirname p =
     (let i = rfind_all p (str ''/'') + 1;
          head = slice p 0 i
      in if head \<noteq> [] \<and> head \<noteq> replicate (length head) 47 then rstrip head (str ''/'')
         else head)"

section \<open>What lies outside the script\<close>

text \<open>
  The script raises in four ways: \<open>sys.exit(n)\<close> raises \<open>SystemExit\<close>,
  \<open>subprocess.run(..., check=True)\<close> raises \<open>CalledProcessError\<close> with the child's
  return code and argument list, \<open>urlsplit\<close> raises \<open>ValueError\<close> on an authority
  it rejects, and \<open>os.makedirs\<close>, \<open>os.listdir\<close> and \<open>os.path.getmtime\<close> raise
  \<open>OSError\<close> (\<open>FileExistsError\<close>, \<open>FileNotFoundError\<close>, \<open>PermissionError\<close> and the
  like) when the file system refuses.
\<close>

datatype exc = SystemExit int | CalledProcessError int "pystr list" | ValueError | OSError

text \<open>The five components \<open>urlsplit\<close> returns.\<close>

record split_result =
  scheme :: pystr
  netloc :: pystr
  path :: pystr
  query :: pystr
  fragment :: pystr

text \<open>
  \<open>import torch; torch.cuda.is_available()\<close> either raises (the package is missing
  or broken) or answers.
\<close>

datatype torch_probe = TorchRaises | TorchSays bool

text \<open>
  The library functions and the machine the script runs on. \<open>lower\<close>, \<open>urlsplit\<close>
  and \<open>urlunsplit\<close> belong to the interpreter (\<open>str.lower\<close> follows the Unicode
  tables, \<open>urllib.parse\<close> differs between releases), so the script is modelled for
  any behaviour of theirs. \<open>which cmd\<close> is \<open>shutil.which(cmd)\<close>; \<open>child_exit k argv\<close>
  is the return code of the \<open>k\<close>-th child process the run starts, when started with
  \<open>argv\<close>; \<open>makedirs p\<close> is \<open>os.makedirs(p, exist_ok=True)\<close>, which returns or
  raises; \<open>exists\<close>, \<open>listdir\<close> and \<open>getmtime\<close> are the file system as
  \<open>pick_txt_output\<close> finds it, where \<open>os.path.exists\<close> answers \<open>False\<close> instead of
  raising and the other two return or raise.
\<close>

record env =
  lower :: "pystr \<Rightarrow> pystr"
  urlsplit :: "pystr \<Rightarrow> exc + split_result"
  urlunsplit :: "split_result \<Rightarrow> pystr"
  expanduser :: "pystr \<Rightarrow> pystr"
  abspath :: "pystr \<Rightarrow> pystr"
  which :: "pystr \<Rightarrow> pystr option"
  torch :: torch_probe
  child_exit :: "nat \<Rightarrow> pystr list \<Rightarrow> int"
  makedirs :: "pystr \<Rightarrow> exc + unit"
  exists :: "pystr \<Rightarrow> bool"
  listdir :: "pystr \<Rightarrow> exc + pystr list"
  getmtime :: "pystr \<Rightarrow> exc + real"

text \<open>
  What a run changes: the lines still to be read from standard input, the chunks
  written to standard output, and the argument lists of the child processes started,
  in order.
\<close>

record world =
  stdin :: "pystr list"
  stdout :: "pystr list"
  spawned :: "pystr list list"

text \<open>\<open>print(s)\<close> writes \<open>s\<close> and a newline.\<close>

definition print :: "pystr \<Rightarrow> world \<Rightarrow> world" where
  "print s w = w\<lparr>stdout := stdout w @ [s @ [10]]\<rparr>"

text \<open>
  \<open>input(prompt)\<close> writes the prompt and returns the next line without its newline;
  at end of file it raises \<open>EOFError\<close>, here \<open>None\<close>.
\<close>

definition input :: "pystr \<Rightarrow> world \<Rightarrow> pystr option \<times> world" where
  "input prompt w =
     (let w' = w\<lparr>stdout := stdout w @ [prompt]\<rparr>
      in case stdin w of [] \<Rightarrow> (None, w') | l # ls \<Rightarrow> (Some l, w'\<lparr>stdin := ls\<rparr>))"

text \<open>
  Every prompt of the script has the same shape:
  \<^verbatim>\<open>try: x = input(prompt).strip()  except EOFError: x = ""\<close>
\<close>

definition input_stripped :: "pystr \<Rightarrow> world \<Rightarrow> pystr \<times> world" where
  "input_stripped prompt w =
     (case input prompt w of (None, w') \<Rightarrow> ([], w') | (Some l, w') \<Rightarrow> (strip l, w'))"

text \<open>
  \<open>subprocess.run(argv, check=True)\<close>: the child is started, and a return code other
  than zero raises.
\<close>

definition subprocess_run :: "env \<Rightarrow> pystr list \<Rightarrow> world \<Rightarrow> (exc + unit) \<times> world" where
  "subprocess_run E argv w =
     (let rc = child_exit E (length (spawned w)) argv;
          w' = w\<lparr>spawned := spawned w @ [argv]\<rparr>
      in if rc \<noteq> 0 then (Inl (CalledProcessError rc argv), w') else (Inr (), w'))"

text \<open>Sequencing: an exception ends the run of statements, keeping the world it left.\<close>

definition andthen ::
  "(exc + 'a) \<times> world \<Rightarrow> ('a \<Rightarrow> world \<Rightarrow> (exc + 'b) \<times> world) \<Rightarrow> (exc + 'b) \<times> world" where
  "andthen m f = (case m of (Inl e, w) \<Rightarrow> (Inl e, w) | (Inr x, w) \<Rightarrow> f x w)"

text \<open>
  The status the interpreter exits with: \<open>0\<close> when \<open>main\<close> returns, \<open>1\<close> after the
  traceback of an uncaught exception, and for \<open>sys.exit(n)\<close> the low eight bits of
  \<open>n\<close>, which is all a POSIX process can report: \<open>sys.exit(-15)\<close> exits with 241.
\<close>

definition exit_status :: "(exc + unit) \<Rightarrow> int" where
  "exit_status r = (case r of Inr _ \<Rightarrow> 0 | Inl (SystemExit n) \<Rightarrow> n mod 256 | Inl _ \<Rightarrow> 1)"

section \<open>The script\<close>

definition trim_after_altmanifest :: "env \<Rightarrow> pystr \<Rightarrow> world \<Rightarrow> (exc + pystr) \<times> world" where
  "trim_after_altmanifest E url w =
     (case urlsplit E url of
        Inl e \<Rightarrow> (Inl e, w)
      | Inr parts \<Rightarrow>
         (let q = query parts in
          if q = [] then
            (Inr url, print (str ''[i] No 'altManifest*' parameter found: using URL as is.'') w)
          else
           (let q_lower = lower E q; pos = find_str q_lower (str ''altmanifest'') in
            if pos = -1 then
              (Inr url, print (str ''[i] No 'altManifest*' parameter found: using URL as is.'') w)
            else
             (let amp = rfind q (str ''&'') 0 pos;
                  new_query = (if amp = -1 then [] else rstrip (slice q 0 amp) (str ''&''));
                  kept = (if amp = -1 then str ''(empty)''
                          else if new_query \<noteq> [] then new_query else str ''(empty)'')
              in (Inr (urlunsplit E \<lparr>scheme = scheme parts, netloc = netloc parts,
                                      path = path parts, query = new_query,
                                      fragment = fragment parts\<rparr>),
                  print (str ''[i] Truncating URL at 'altManifest*'. Remaining query: '' @ kept)
                    w)))))"

definition prompt_mode :: "world \<Rightarrow> pystr \<times> world" where
  "prompt_mode w =
     (let w = print (10 # str ''== Action =='') w;
          w = print (str ''[1] Download Only (stop after saving the video)'') w;
          w = print (str ''[2] Download + Transcribe with Whisper (default)'') w;
          (choice, w) = input_stripped (str ''Choose 1 or 2 [default: 2]: '') w
      in if choice = str ''1'' then
           (str ''download'', print (str ''[i] Selected: Download Only.'') w)
         else
           (str ''transcribe'', print (str ''[i] Selected: Download + Transcribe.'') w))"

definition prompt_all_inputs ::
  "env \<Rightarrow> world \<Rightarrow> (exc + pystr \<times> pystr \<times> pystr \<times> pystr \<times> pystr) \<times> world" where
  "prompt_all_inputs E w =
     (let default_dir = str ''transcripts'';
          (outdir_in, w) =
             input_stripped (str ''Where do you want to save the files? (Enter = ''
                               @ default_dir @ str ''): '') w;
          outdir = abspath E (expanduser E (or_else outdir_in default_dir));
          (url, w) =
             input_stripped (str ''Paste the video link (Teams/Stream) and press Enter: '') w
      in if url = [] then
           (Inl (SystemExit 1), print (str ''[x] No URL provided. Exiting.'') w)
         else
          (let default_language = str ''en'';
               default_device = str ''cuda'';
               default_model = str ''medium.en'';
               (lang_in, w) =
                  input_stripped (str ''Transcription language? (Enter = '' @ default_language
                     @ str ''; use 'auto' for automatic detection): '') w;
               language = lower E (or_else lang_in default_language);
               (dev_in, w) =
                  input_stripped (str ''Device? (Enter = '' @ default_device
                     @ str ''; type 'cpu' if you don't have CUDA): '') w;
               device = lower E (or_else dev_in default_device);
               (device, w) =
                  (if device \<notin> {str ''cuda'', str ''cpu''} then
                     (default_device,
                      print (str ''[!] Unrecognized device: '' @ [39] @ device @ [39]
                             @ str ''. Using default: '' @ default_device @ str ''.'') w)
                   else (device, w));
               model = default_model
           in if (language \<noteq> str ''en'' \<or> language = str ''auto'')
                 \<and> endswith default_model (str ''.en'') then
                (let model = replace default_model (str ''.en'') []
                 in (Inr (outdir, url, language, device, model),
                     print (str ''[i] Requested language = '' @ [39] @ language @ [39]
                            @ str ''. Switching model from '' @ [39] @ default_model @ [39]
                            @ [32, 8594, 32, 39] @ model @ [39] @ str '' (multilingual).'') w))
              else (Inr (outdir, url, language, device, model), w)))"

definition ensure_cmd_on_path :: "env \<Rightarrow> pystr \<Rightarrow> pystr \<Rightarrow> world \<Rightarrow> (exc + unit) \<times> world" where
  "ensure_cmd_on_path E cmd help_hint w =
     (if which E cmd = None then
        (Inl (SystemExit 1),
         print (str ''[x] Command '' @ [39] @ cmd @ [39] @ str '' not found in PATH. ''
                @ help_hint) w)
      else (Inr (), w))"

definition resolve_device :: "env \<Rightarrow> pystr \<Rightarrow> world \<Rightarrow> pystr \<times> world" where
  "resolve_device E device w =
     (if device = str ''cuda'' then
        (case torch E of
           TorchSays available \<Rightarrow>
             (if \<not> available then
                (str ''cpu'',
                 print (str ''[!] CUDA not available according to PyTorch. Falling back to 'cpu'.'')
                   w)
              else (str ''cuda'', print (str ''[i] CUDA available: using 'cuda'.'') w))
         | TorchRaises \<Rightarrow>
             (if which E (str ''nvidia-smi'') = None then
                (str ''cpu'',
                 print (str ''[!] Neither PyTorch CUDA nor 'nvidia-smi' detected. Falling back to 'cpu'.'')
                   w)
              else (str ''cuda'', print (str ''[i] GPU detected via 'nvidia-smi': using 'cuda'.'') w)))
      else (str ''cpu'', w))"

definition make_paths ::
  "env \<Rightarrow> pystr \<Rightarrow> pystr \<Rightarrow> world \<Rightarrow> (exc + pystr \<times> pystr \<times> pystr) \<times> world" where
  "make_paths E outdir url w =
     andthen (makedirs E outdir, w) (\<lambda>_ w.
     andthen (trim_after_altmanifest E url w) (\<lambda>url_trimmed w.
       (let basename = str ''video'';
            mp4_path = path_join outdir (basename @ str ''.mp4'')
        in (Inr (url_trimmed, basename, mp4_path), w))))"

definition run_ffmpeg :: "env \<Rightarrow> pystr \<Rightarrow> pystr \<Rightarrow> world \<Rightarrow> (exc + unit) \<times> world" where
  "run_ffmpeg E url_trimmed mp4_path w =
     andthen (makedirs E (dirname mp4_path), w) (\<lambda>_ w.
       (let w = print (str ''[i] Downloading video with ffmpeg...'') w
        in andthen
             (subprocess_run E
                [str ''ffmpeg'', str ''-y'', str ''-i'', url_trimmed, str ''-codec'', str ''copy'',
                 mp4_path] w)
             (\<lambda>_ w. (Inr (), print ([91, 10003, 93] @ str '' Video saved: '' @ mp4_path) w))))"

definition run_whisper ::
  "env \<Rightarrow> pystr \<Rightarrow> pystr \<Rightarrow> pystr \<Rightarrow> pystr \<Rightarrow> pystr \<Rightarrow> world \<Rightarrow> (exc + unit) \<times> world" where
  "run_whisper E mp4_path outdir model language device w =
     (let w = print (str ''[i] Starting Whisper transcription '' @ [8594] @ str '' model='' @ model
                     @ str '', language='' @ language @ str '', device='' @ device) w;
          cmd = [str ''whisper'', mp4_path, str ''--model'', model, str ''--device'', device,
                 str ''--output_format'', str ''txt'', str ''--output_dir'', outdir];
          cmd = (if language \<noteq> str ''auto'' then cmd @ [str ''--language'', language] else cmd);
          cmd_verbose = cmd @ [str ''--verbose'', str ''False'']
      in case subprocess_run E cmd_verbose w of
           (Inl (CalledProcessError rc argv), w) \<Rightarrow>
             subprocess_run E cmd
               (print (str ''[!] '--verbose False' not supported? Retrying without '--verbose'.'') w)
         | r \<Rightarrow> r)"

text \<open>
  \<open>max(candidates, key=os.path.getmtime)\<close> computes the key of every candidate once,
  in order, and keeps the first of the candidates with the greatest key: a later one
  replaces the best so far only when its key is greater. A key that cannot be computed
  raises, and \<open>max\<close> with it.
\<close>

fun max_from :: "('a \<Rightarrow> exc + real) \<Rightarrow> 'a \<Rightarrow> real \<Rightarrow> 'a list \<Rightarrow> exc + 'a" where
  "max_from key best kbest [] = Inr best"
| "max_from key best kbest (x # xs) =
     (case key x of
        Inl e \<Rightarrow> Inl e
      | Inr k \<Rightarrow> if kbest < k then max_from key x k xs else max_from key best kbest xs)"

definition max_by :: "('a \<Rightarrow> exc + real) \<Rightarrow> 'a \<Rightarrow> 'a list \<Rightarrow> exc + 'a" where
  "max_by key c cs = (case key c of Inl e \<Rightarrow> Inl e | Inr k \<Rightarrow> max_from key c k cs)"

text \<open>
  The two calls of \<open>os.listdir(outdir)\<close> see the same directory; the listing is taken
  once here.
\<close>

definition pick_txt_output ::
  "env \<Rightarrow> pystr \<Rightarrow> pystr \<Rightarrow> world \<Rightarrow> (exc + pystr option) \<times> world" where
  "pick_txt_output E outdir basename w =
     (let txt_path = path_join outdir (basename @ str ''.txt'') in
      if exists E txt_path then
        (Inr (Some txt_path), print ([91, 10003, 93] @ str '' Transcript ready: '' @ txt_path) w)
      else
       (case listdir E outdir of
          Inl e \<Rightarrow> (Inl e, w)
        | Inr names \<Rightarrow>
           (let candidates =
                  [path_join outdir f. f \<leftarrow> names,
                     endswith f (str ''.txt'') \<and> startswith f basename];
                candidates =
                  (if candidates = [] then
                     [path_join outdir f. f \<leftarrow> names, endswith f (str ''.txt'')]
                   else candidates)
            in case candidates of
                 c # cs \<Rightarrow>
                   (case max_by (getmtime E) c cs of
                      Inl e \<Rightarrow> (Inl e, w)
                    | Inr latest \<Rightarrow>
                        (Inr (Some latest),
                         print (str ''[i] Found TXT output (newest): '' @ latest) w))
               | [] \<Rightarrow>
                   (Inr None,
                    print (str ''[x] Couldn't find the .txt output. Check whisper logs.'') w))))"

definition main :: "env \<Rightarrow> world \<Rightarrow> (exc + unit) \<times> world" where
  "main E w =
     andthen (ensure_cmd_on_path E (str ''ffmpeg'')
                (str ''Install ffmpeg and ensure it's in PATH.'') w) (\<lambda>_ w.
     andthen (ensure_cmd_on_path E (str ''whisper'')
                (str ''Install openai-whisper with: pip install -U openai-whisper'') w) (\<lambda>_ w.
     (let (mode, w) = prompt_mode w in
     andthen (prompt_all_inputs E w) (\<lambda>(outdir, url, language, device_req, model) w.
     andthen (make_paths E outdir url w) (\<lambda>(url_trimmed, basename, mp4_path) w.
     (let (device, w) = resolve_device E device_req w;
          w = (if device \<noteq> device_req then
                 print (str ''[i] Device fallback: requested='' @ [39] @ device_req @ [39]
                        @ str '', effective='' @ [39] @ device @ [39] @ str ''.'') w
               else w) in
     andthen (run_ffmpeg E url_trimmed mp4_path w) (\<lambda>_ w.
     if mode = str ''download'' then
       (Inl (SystemExit 0),
        print (str ''[i] Download completed. Exiting as requested (Download Only).'') w)
     else
       (case run_whisper E mp4_path outdir model language device w of
          (Inl (CalledProcessError rc argv), w) \<Rightarrow>
            (Inl (SystemExit rc),
             print (str ''[x] Error while running whisper: exit code '' @ str_of_int rc
                    @ str ''.'') w)
        | (Inl e, w) \<Rightarrow> (Inl e, w)
        | (Inr _, w) \<Rightarrow>
            andthen (pick_txt_output E outdir basename w) (\<lambda>_ w. (Inr (), w))))))))))"

section \<open>A concrete interpreter and machine\<close>

text \<open>
  To run the script on concrete inputs, the library functions need concrete values.
  \<open>lower_plain\<close> is \<open>str.lower\<close> on strings made of ASCII code points and U+0130
  (LATIN CAPITAL LETTER I WITH DOT ABOVE), whose lower-case form is the two code points
  U+0069 U+0307; every other code point is left as it is here.
\<close>

definition to_lower_full :: "nat \<Rightarrow> pystr" where
  "to_lower_full c =
     (if 65 \<le> c \<and> c \<le> 90 then [c + 32] else if c = 304 then [105, 775] else [c])"

definition lower_plain :: "pystr \<Rightarrow> pystr" where
  "lower_plain s = concat (map to_lower_full s)"

text \<open>
  \<open>urlsplit_plain\<close> and \<open>urlunsplit_plain\<close> follow \<open>urllib.parse\<close> of CPython 3.11 on
  URLs whose authority is ASCII and has no square brackets: leading control characters
  and spaces are stripped, tabs and line breaks are removed, a scheme is a letter
  followed by scheme characters up to the first colon and is lower-cased, the authority
  follows \<open>//\<close> up to the first of \<open>/ ? #\<close>, the fragment follows the first \<open>#\<close> and the
  query the first \<open>?\<close> before it. The checks \<open>urlsplit\<close> makes on other authorities
  need the \<open>ipaddress\<close> and \<open>unicodedata\<close> modules; such an authority is answered with
  \<open>ValueError\<close> here.
\<close>

definition is_alpha :: "nat \<Rightarrow> bool" where
  "is_alpha c = ((65 \<le> c \<and> c \<le> 90) \<or> (97 \<le> c \<and> c \<le> 122))"

definition is_scheme_char :: "nat \<Rightarrow> bool" where
  "is_scheme_char c = (is_alpha c \<or> (48 \<le> c \<and> c \<le> 57) \<or> c \<in> set (str ''+-.''))"

definition cut_at :: "(nat \<Rightarrow> bool) \<Rightarrow> pystr \<Rightarrow> pystr \<times> pystr" where
  "cut_at P s = (takeWhile (\<lambda>c. \<not> P c) s, drop 1 (dropWhile (\<lambda>c. \<not> P c) s))"

definition urlsplit_plain :: "pystr \<Rightarrow> exc + split_result" where
  "urlsplit_plain url0 =
     (let url = filter (\<lambda>c. c \<notin> {9, 10, 13}) (dropWhile (\<lambda>c. c \<le> 32) url0);
          i = find_str url (str '':'');
          has_scheme = (0 < i \<and> is_alpha (hd url) \<and> list_all is_scheme_char (slice url 0 i));
          sch = (if has_scheme then lower_plain (slice url 0 i) else []);
          url = (if has_scheme then drop (nat i + 1) url else url);
          has_netloc = (take 2 url = str ''//'');
          loc = (if has_netloc then takeWhile (\<lambda>c. c \<notin> set (str ''/?#'')) (drop 2 url) else []);
          url = (if has_netloc then dropWhile (\<lambda>c. c \<notin> set (str ''/?#'')) (drop 2 url) else url);
          (url, frag) = cut_at (\<lambda>c. c = 35) url;
          (url, qry) = cut_at (\<lambda>c. c = 63) url
      in if list_ex (\<lambda>c. c = 91 \<or> c = 93 \<or> 128 \<le> c) loc then Inl ValueError
         else Inr \<lparr>scheme = sch, netloc = loc, path = url, query = qry, fragment = frag\<rparr>)"

definition uses_netloc :: "pystr list" where
  "uses_netloc =
     [[], str ''ftp'', str ''http'', str ''gopher'', str ''nntp'', str ''telnet'', str ''imap'',
      str ''wais'', str ''file'', str ''mms'', str ''https'', str ''shttp'', str ''snews'',
      str ''prospero'', str ''rtsp'', str ''rtspu'', str ''rsync'', str ''svn'', str ''svn+ssh'',
      str ''sftp'', str ''nfs'', str ''git'', str ''git+ssh'', str ''ws'', str ''wss'']"

definition urlunsplit_plain :: "split_result \<Rightarrow> pystr" where
  "urlunsplit_plain p =
     (let url = path p;
          url = (if netloc p \<noteq> []
                    \<or> (scheme p \<noteq> [] \<and> scheme p \<in> set uses_netloc \<and> take 2 url \<noteq> str ''//'')
                 then str ''//'' @ netloc p
                      @ (if url \<noteq> [] \<and> take 1 url \<noteq> str ''/'' then str ''/'' @ url else url)
                 else url);
          url = (if scheme p \<noteq> [] then scheme p @ str '':'' @ url else url);
          url = (if query p \<noteq> [] then url @ str ''?'' @ query p else url)
      in if fragment p \<noteq> [] then url @ str ''#'' @ fragment p else url)"

text \<open>
  A machine with \<open>ffmpeg\<close>, \<open>whisper\<close> and \<open>nvidia-smi\<close> installed, a PyTorch that
  reports no GPU, children that succeed, the working directory \<open>/work\<close>, directories
  that can be created and listed, and no file in them. The concrete runs below change
  it field by field.
\<close>

definition machine :: env where
  "machine =
     \<lparr>lower = lower_plain, urlsplit = urlsplit_plain, urlunsplit = urlunsplit_plain,
      expanduser = (\<lambda>p. p), abspath = path_join (str ''/work''),
      which = (\<lambda>c. if c \<in> {str ''ffmpeg'', str ''whisper'', str ''nvidia-smi''}
                     then Some (str ''/usr/bin/'' @ c) else None),
      torch = TorchSays False,
      child_exit = (\<lambda>k argv. 0),
      makedirs = (\<lambda>p. Inr ()),
      exists = (\<lambda>p. False), listdir = (\<lambda>d. Inr []), getmtime = (\<lambda>p. Inl OSError)\<rparr>"

text \<open>
  \<open>folder fs\<close> is that machine with the output directory \<open>/out\<close> holding the entries
  \<open>fs\<close>: a file with its modification time, or, with \<open>None\<close>, a symbolic link whose
  target is gone, which \<open>os.listdir\<close> lists, \<open>os.path.exists\<close> denies and
  \<open>os.path.getmtime\<close> cannot read. No other directory exists.
\<close>

definition folder :: "(pystr \<times> real option) list \<Rightarrow> env" where
  "folder fs =
     machine
       \<lparr>exists := (\<lambda>p. case map_of (map (\<lambda>(f, t). (path_join (str ''/out'') f, t)) fs) p of
                          Some (Some t) \<Rightarrow> True | _ \<Rightarrow> False),
        listdir := (\<lambda>d. if d = str ''/out'' then Inr (map fst fs) else Inl OSError),
        getmtime := (\<lambda>p. case map_of (map (\<lambda>(f, t). (path_join (str ''/out'') f, t)) fs) p of
                            Some (Some t) \<Rightarrow> Inr t | _ \<Rightarrow> Inl OSError)\<rparr>"

text \<open>
  \<open>children_exit codes\<close> is that machine with the \<open>k\<close>-th child process returning
  \<open>codes k\<close>.
\<close>

definition children_exit :: "(nat \<Rightarrow> int) \<Rightarrow> env" where
  "children_exit codes = machine\<lparr>child_exit := (\<lambda>k argv. codes k)\<rparr>"

text \<open>A world in which the user types the given lines and nothing has happened yet.\<close>

definition typed :: "pystr list \<Rightarrow> world" where
  "typed ls = \<lparr>stdin = ls, stdout = [], spawned = []\<rparr>"

section \<open>Vocabulary of the properties\<close>

text \<open>
  \<open>answer w k\<close> is the \<open>k\<close>-th answer still to come on standard input, stripped of
  white space, and the empty string when standard input ends before it.
\<close>

definition answer :: "world \<Rightarrow> nat \<Rightarrow> pystr" where
  "answer w k = (if k < length (stdin w) then strip (stdin w ! k) else [])"

text \<open>
  \<open>contains_ci E s name\<close>: \<open>name\<close> occurs in \<open>s\<close> when case is ignored, that is, in
  the lower-cased \<open>s\<close>.
\<close>

definition contains_ci :: "env \<Rightarrow> pystr \<Rightarrow> pystr \<Rightarrow> bool" where
  "contains_ci E s name = sublist name (lower E s)"

text \<open>
  \<open>txt_files outdir names pre\<close> are the paths of the entries \<open>names\<close> of the output
  directory whose name ends in \<open>.txt\<close> and starts with \<open>pre\<close>, in the order of the
  listing. \<open>readable E ps\<close> says that the modification time of each of \<open>ps\<close> can be
  read; \<open>newest E ps p\<close> says that \<open>p\<close> is one of \<open>ps\<close>, that all their modification
  times can be read and that none of them was modified later than \<open>p\<close>.
\<close>

definition txt_files :: "pystr \<Rightarrow> pystr list \<Rightarrow> pystr \<Rightarrow> pystr list" where
  "txt_files outdir names pre =
     [path_join outdir f. f \<leftarrow> names, endswith f (str ''.txt'') \<and> startswith f pre]"

definition readable :: "env \<Rightarrow> pystr list \<Rightarrow> bool" where
  "readable E ps = (\<forall>c \<in> set ps. \<exists>t. getmtime E c = Inr t)"

definition newest :: "env \<Rightarrow> pystr list \<Rightarrow> pystr \<Rightarrow> bool" where
  "newest E ps p =
     (p \<in> set ps
      \<and> (\<exists>tp. getmtime E p = Inr tp \<and> (\<forall>c \<in> set ps. \<exists>tc. getmtime E c = Inr tc \<and> tc \<le> tp)))"

text \<open>The argument list \<open>run_whisper\<close> builds before it adds the verbosity flag.\<close>

definition whisper_cmd :: "pystr \<Rightarrow> pystr \<Rightarrow> pystr \<Rightarrow> pystr \<Rightarrow> pystr \<Rightarrow> pystr list" where
  "whisper_cmd mp4_path outdir model language device =
     [str ''whisper'', mp4_path, str ''--model'', model, str ''--device'', device,
      str ''--output_format'', str ''txt'', str ''--output_dir'', outdir]
     @ (if language \<noteq> str ''auto'' then [str ''--language'', language] else [])"

section \<open>Standard input and output\<close>

lemma stdin_print [simp]: "stdin (print s w) = stdin w"
  by (simp add: print_def)

lemma spawned_print [simp]: "spawned (print s w) = spawned w"
  by (simp add: print_def)

lemma stdout_print [simp]: "stdout (print s w) = stdout w @ [s @ [10]]"
  by (simp add: print_def)

lemma answer_print [simp]: "answer (print s w) k = answer w k"
  by (simp add: answer_def)

lemma fst_input_stripped [simp]: "fst (input_stripped p w) = answer w 0"
  by (cases "stdin w") (simp_all add: input_stripped_def input_def answer_def strip_def)

lemma answer_input_stripped [simp]: "answer (snd (input_stripped p w)) k = answer w (Suc k)"
  by (cases "stdin w") (simp_all add: input_stripped_def input_def answer_def)

lemma spawned_input_stripped [simp]: "spawned (snd (input_stripped p w)) = spawned w"
  by (cases "stdin w") (simp_all add: input_stripped_def input_def)

lemma stdout_input_stripped [simp]: "stdout (snd (input_stripped p w)) = stdout w @ [p]"
  by (cases "stdin w") (simp_all add: input_stripped_def input_def)

text \<open>Different literals are different strings.\<close>

lemma str_inject [simp]: "(str a = str b) = (a = b)"
proof -
  have "inj (of_char :: char \<Rightarrow> nat)"
    by (rule inj_on_inverseI [where g = char_of]) simp
  then show ?thesis
    by (simp add: str_def inj_map_eq_map)
qed

lemma str_Nil [simp]: "str [] = []"
  by (simp add: str_def)

section \<open>The mode prompt\<close>

lemma prompt_mode_fst:
  "fst (prompt_mode w) = (if answer w 0 = str ''1'' then str ''download'' else str ''transcribe'')"
  unfolding prompt_mode_def
  apply (simp only: Let_def split_def fst_input_stripped answer_print)
  apply (simp only: if_distrib [of fst] fst_conv)
  done

lemma prompt_mode_answer: "answer (snd (prompt_mode w)) k = answer w (Suc k)"
  by (simp add: prompt_mode_def Let_def split_def)

lemma prompt_mode_spawned: "spawned (snd (prompt_mode w)) = spawned w"
  by (simp add: prompt_mode_def Let_def split_def)

text \<open>
  C10. Whatever is answered to the mode prompt, \<open>prompt_mode\<close> selects Download Only
  exactly when the answer, stripped of white space, is the string \<open>1\<close>; every other
  answer, the empty one and the end of standard input included, selects
  Download + Transcribe.
\<close>

theorem prompt_mode_choice:
  "fst (prompt_mode w) =
     (if answer w 0 = str ''1'' then str ''download'' else str ''transcribe'')"
  by (rule prompt_mode_fst)

section \<open>The configuration prompts\<close>

lemma medium_en_endswith: "endswith (str ''medium.en'') (str ''.en'')"
  by (simp add: endswith_def str_def suffix_def)

lemma medium_en_replace: "replace (str ''medium.en'') (str ''.en'') [] = str ''medium''"
  by (simp add: str_def)

lemma prompt_all_inputs_no_url:
  assumes "answer w 1 = []"
  shows "fst (prompt_all_inputs E w) = Inl (SystemExit 1)"
    and "spawned (snd (prompt_all_inputs E w)) = spawned w"
    and "last (stdout (snd (prompt_all_inputs E w))) = str ''[x] No URL provided. Exiting.'' @ [10]"
  using assms by (simp_all add: prompt_all_inputs_def split_def Let_def)

lemma prompt_all_inputs_fst:
  assumes "answer w 1 \<noteq> []"
  shows "fst (prompt_all_inputs E w) =
     Inr (abspath E (expanduser E (or_else (answer w 0) (str ''transcripts''))),
          answer w 1,
          lower E (or_else (answer w 2) (str ''en'')),
          (if lower E (or_else (answer w 3) (str ''cuda'')) \<in> {str ''cuda'', str ''cpu''}
           then lower E (or_else (answer w 3) (str ''cuda'')) else str ''cuda''),
          (if lower E (or_else (answer w 2) (str ''en'')) = str ''en''
           then str ''medium.en'' else str ''medium''))"
  using assms unfolding prompt_all_inputs_def
  apply (simp only: Let_def split_def)
  apply (simp only: fst_input_stripped answer_input_stripped answer_print if_not_P)
  apply (simp only: medium_en_endswith medium_en_replace simp_thms)
  apply (simp only: if_distrib [of fst] fst_conv snd_conv)
  apply (simp add: numeral_2_eq_2 numeral_3_eq_3)
  done

lemma prompt_all_inputs_spawned:
  "spawned (snd (prompt_all_inputs E w)) = spawned w"
  unfolding prompt_all_inputs_def
  apply (simp only: Let_def split_def)
  apply (simp only: if_distrib [of snd] if_distrib [of spawned] snd_conv spawned_print
       spawned_input_stripped if_cancel)
  done

text \<open>
  C4. When the configuration prompts return, the language is the lower-cased answer
  (\<open>en\<close> when the answer is empty), and the model is the multilingual \<open>medium\<close>
  exactly when that language is not \<open>en\<close>, so also for \<open>auto\<close>; for \<open>en\<close> it stays
  the English-only \<open>medium.en\<close>.
\<close>

theorem model_follows_language:
  assumes "fst (prompt_all_inputs E w) = Inr (outdir, url, language, device, model)"
  shows "language = lower E (or_else (answer w 2) (str ''en''))
         \<and> (model = str ''medium'' \<longleftrightarrow> language \<noteq> str ''en'')
         \<and> (language = str ''en'' \<longrightarrow> model = str ''medium.en'')
         \<and> (language = str ''auto'' \<longrightarrow> model = str ''medium'')"
proof -
  have url: "answer w 1 \<noteq> []"
  proof
    assume "answer w 1 = []"
    then have "fst (prompt_all_inputs E w) = Inl (SystemExit 1)"
      by (rule prompt_all_inputs_no_url)
    with assms show False by simp
  qed
  from assms prompt_all_inputs_fst [OF url, of E]
  have l: "language = lower E (or_else (answer w 2) (str ''en''))"
    and m: "model = (if language = str ''en'' then str ''medium.en'' else str ''medium'')"
    by auto
  from l m show ?thesis by simp
qed

theorem model_follows_language_witness:
  "fst (prompt_all_inputs machine (typed [[], str ''https://h/v'', str ''IT'', str ''cpu'']))
     = Inr (str ''/work/transcripts'', str ''https://h/v'', str ''it'', str ''cpu'', str ''medium'')
   \<and> (str ''medium'' = str ''medium'' \<longleftrightarrow> str ''it'' \<noteq> str ''en'')"
proof -
  have run: "fst (prompt_all_inputs machine (typed [[], str ''https://h/v'', str ''IT'', str ''cpu'']))
     = Inr (str ''/work/transcripts'', str ''https://h/v'', str ''it'', str ''cpu'', str ''medium'')"
    by (simp add: prompt_all_inputs_fst answer_def typed_def strip_def is_space_def machine_def
         or_else_def lower_plain_def to_lower_full_def path_join_def startswith_def endswith_def
         suffix_to_prefix str_def)
  from model_follows_language [OF run] run show ?thesis by blast
qed

text \<open>
  C8. When a URL was given and the lower-cased device answer is neither \<open>cuda\<close> nor
  \<open>cpu\<close>, the prompts return normally with the device \<open>cuda\<close>, and the warning that
  names the unrecognized device is on standard output.
\<close>

theorem unrecognized_device_falls_back:
  assumes "answer w 1 \<noteq> []"
    and "lower E (or_else (answer w 3) (str ''cuda'')) \<notin> {str ''cuda'', str ''cpu''}"
  shows "(\<exists>outdir url language model.
            fst (prompt_all_inputs E w) = Inr (outdir, url, language, str ''cuda'', model))
         \<and> str ''[!] Unrecognized device: '' @ [39]
             @ lower E (or_else (answer w 3) (str ''cuda''))
             @ [39] @ str ''. Using default: cuda.'' @ [10]
           \<in> set (stdout (snd (prompt_all_inputs E w)))"
proof
  show "\<exists>outdir url language model.
           fst (prompt_all_inputs E w) = Inr (outdir, url, language, str ''cuda'', model)"
    using assms by (simp add: prompt_all_inputs_fst)
  show "str ''[!] Unrecognized device: '' @ [39] @ lower E (or_else (answer w 3) (str ''cuda''))
           @ [39] @ str ''. Using default: cuda.'' @ [10]
         \<in> set (stdout (snd (prompt_all_inputs E w)))"
    using assms unfolding prompt_all_inputs_def
    apply (simp only: Let_def split_def)
    apply (simp only: fst_input_stripped answer_input_stripped answer_print if_not_P if_P)
    apply (simp only: medium_en_endswith medium_en_replace simp_thms)
    apply (simp only: if_distrib [of snd] if_distrib [of stdout] if_distrib [of set] fst_conv
        snd_conv numeral_3_eq_3 numeral_2_eq_2 One_nat_def if_P if_not_P)
    apply (simp add: str_def)
    done
qed

theorem unrecognized_device_falls_back_witness:
  "answer (typed [[], str ''https://h/v'', [], str ''TPU'']) 1 \<noteq> []
   \<and> lower machine (or_else (answer (typed [[], str ''https://h/v'', [], str ''TPU'']) 3)
        (str ''cuda'')) = str ''tpu''
   \<and> (\<exists>outdir url language model.
         fst (prompt_all_inputs machine (typed [[], str ''https://h/v'', [], str ''TPU'']))
           = Inr (outdir, url, language, str ''cuda'', model))
   \<and> str ''[!] Unrecognized device: '' @ [39] @ str ''tpu'' @ [39]
         @ str ''. Using default: cuda.'' @ [10]
       \<in> set (stdout (snd (prompt_all_inputs machine
                              (typed [[], str ''https://h/v'', [], str ''TPU'']))))"
proof -
  let ?w = "typed [[], str ''https://h/v'', [], str ''TPU'']"
  have url: "answer ?w 1 \<noteq> []"
    by (simp add: answer_def typed_def strip_def is_space_def str_def)
  have dev: "lower machine (or_else (answer ?w 3) (str ''cuda'')) = str ''tpu''"
    by (simp add: answer_def typed_def strip_def is_space_def machine_def or_else_def
          lower_plain_def to_lower_full_def str_def)
  have other: "lower machine (or_else (answer ?w 3) (str ''cuda'')) \<notin> {str ''cuda'', str ''cpu''}"
    unfolding dev by simp
  note run = unrecognized_device_falls_back [OF url other, unfolded dev]
  show ?thesis
    apply (intro conjI)
       apply (rule url)
      apply (rule dev)
     apply (rule conjunct1 [OF run])
    apply (rule conjunct2 [OF run])
    done
qed

section \<open>The URL sanitizer\<close>

lemma find_ge: "- 1 \<le> find_str s sub"
  by (induction s) (simp_all add: Let_def)

lemma find_absent: "find_str s sub = - 1 \<longleftrightarrow> \<not> sublist sub s"
proof (induction s)
  case Nil
  then show ?case by simp
next
  case (Cons c s)
  have "find_str s sub + 1 \<noteq> - 1"
    using find_ge [of s sub] by linarith
  with Cons show ?case
    by (simp add: Let_def sublist_Cons_right)
qed

text \<open>
  C2. When \<open>urlsplit\<close> accepts the URL and its query is empty or does not contain
  \<open>altmanifest\<close> with case ignored, \<open>trim_after_altmanifest\<close> returns the URL it was
  given, unchanged.
\<close>

theorem trim_without_parameter_is_identity:
  assumes "urlsplit E url = Inr parts"
    and "query parts = [] \<or> \<not> contains_ci E (query parts) (str ''altmanifest'')"
  shows "fst (trim_after_altmanifest E url w) = Inr url"
  using assms
  by (auto simp add: trim_after_altmanifest_def Let_def contains_ci_def find_absent)

theorem trim_without_parameter_is_identity_witness:
  "urlsplit machine (str ''https://h/v?a=1&b=2#t'')
     = Inr \<lparr>scheme = str ''https'', netloc = str ''h'', path = str ''/v'',
            query = str ''a=1&b=2'', fragment = str ''t''\<rparr>
   \<and> \<not> contains_ci machine (str ''a=1&b=2'') (str ''altmanifest'')
   \<and> fst (trim_after_altmanifest machine (str ''https://h/v?a=1&b=2#t'') (typed []))
       = Inr (str ''https://h/v?a=1&b=2#t'')"
proof -
  have split: "urlsplit machine (str ''https://h/v?a=1&b=2#t'')
     = Inr \<lparr>scheme = str ''https'', netloc = str ''h'', path = str ''/v'',
            query = str ''a=1&b=2'', fragment = str ''t''\<rparr>"
    by (simp add: machine_def urlsplit_plain_def Let_def str_def is_alpha_def is_scheme_char_def
          slice_def clamp_index_def cut_at_def lower_plain_def to_lower_full_def)
  have absent: "\<not> contains_ci machine (str ''a=1&b=2'') (str ''altmanifest'')"
    unfolding contains_ci_def find_absent [symmetric]
    by (simp add: machine_def lower_plain_def to_lower_full_def str_def)
  from trim_without_parameter_is_identity [OF split, of "typed []"] absent split
  show ?thesis by simp
qed

section \<open>Device resolution\<close>

text \<open>
  C3, as the claim states it, fails: on a machine where PyTorch imports and reports no
  GPU while \<open>nvidia-smi\<close> is installed, \<open>resolve_device\<close> answers \<open>cpu\<close> and never
  looks for the executable.
\<close>

theorem resolve_device_ignores_nvidia_smi:
  "torch machine = TorchSays False
   \<and> which machine (str ''nvidia-smi'') \<noteq> None
   \<and> fst (resolve_device machine (str ''cuda'') (typed [])) = str ''cpu''"
  by (simp add: resolve_device_def machine_def)

text \<open>
  C3, amended. For the request \<open>cuda\<close>: when the library call answers, its answer
  decides (\<open>cuda\<close> if a GPU is available, \<open>cpu\<close> if not); the executable
  \<open>nvidia-smi\<close> is consulted only when the library call raises, and then \<open>cuda\<close> is
  returned if it is found and \<open>cpu\<close> if it is not.
\<close>

theorem resolve_device_cuda:
  "(torch E = TorchSays True \<longrightarrow> fst (resolve_device E (str ''cuda'') w) = str ''cuda'')
   \<and> (torch E = TorchSays False \<longrightarrow> fst (resolve_device E (str ''cuda'') w) = str ''cpu'')
   \<and> (torch E = TorchRaises \<and> which E (str ''nvidia-smi'') \<noteq> None
        \<longrightarrow> fst (resolve_device E (str ''cuda'') w) = str ''cuda'')
   \<and> (torch E = TorchRaises \<and> which E (str ''nvidia-smi'') = None
        \<longrightarrow> fst (resolve_device E (str ''cuda'') w) = str ''cpu'')"
  by (simp add: resolve_device_def)

theorem resolve_device_cuda_witness:
  "fst (resolve_device machine (str ''cuda'') (typed [])) = str ''cpu''
   \<and> fst (resolve_device (machine\<lparr>torch := TorchRaises\<rparr>) (str ''cuda'') (typed []))
       = str ''cuda''
   \<and> fst (resolve_device (machine\<lparr>torch := TorchSays True\<rparr>) (str ''cuda'') (typed []))
       = str ''cuda''
   \<and> fst (resolve_device (machine\<lparr>torch := TorchRaises, which := (\<lambda>c. None)\<rparr>)
             (str ''cuda'') (typed [])) = str ''cpu''"
  using resolve_device_cuda [of machine "typed []"]
    resolve_device_cuda [of "machine\<lparr>torch := TorchRaises\<rparr>" "typed []"]
    resolve_device_cuda [of "machine\<lparr>torch := TorchSays True\<rparr>" "typed []"]
    resolve_device_cuda [of "machine\<lparr>torch := TorchRaises, which := (\<lambda>c. None)\<rparr>" "typed []"]
  by (simp add: machine_def)

lemma resolve_device_spawned: "spawned (snd (resolve_device E device w)) = spawned w"
  by (simp add: resolve_device_def split: torch_probe.splits)

section \<open>Finding the transcript\<close>

lemma max_from_readable:
  assumes "key best = Inr kbest" and "\<forall>x \<in> set xs. \<exists>t. key x = Inr t"
  shows "\<exists>p tp. max_from key best kbest xs = Inr p \<and> p \<in> set (best # xs) \<and> key p = Inr tp
           \<and> kbest \<le> tp \<and> (\<forall>x \<in> set xs. \<exists>tx. key x = Inr tx \<and> tx \<le> tp)"
  using assms
proof (induction xs arbitrary: best kbest)
  case Nil
  then show ?case by simp
next
  case (Cons x xs)
  from Cons.prems(2) obtain k where k: "key x = Inr k"
    by auto
  from Cons.prems(2) have rest: "\<forall>y \<in> set xs. \<exists>t. key y = Inr t"
    by simp
  show ?case
  proof (cases "kbest < k")
    case True
    from Cons.IH [OF k rest] obtain p tp where
      "max_from key x k xs = Inr p" "p \<in> set (x # xs)" "key p = Inr tp" "k \<le> tp"
      "\<forall>y \<in> set xs. \<exists>ty. key y = Inr ty \<and> ty \<le> tp"
      by blast
    with True k show ?thesis
      by (auto intro!: exI [of _ p] exI [of _ tp])
  next
    case False
    from Cons.IH [OF Cons.prems(1) rest] obtain p tp where
      "max_from key best kbest xs = Inr p" "p \<in> set (best # xs)" "key p = Inr tp" "kbest \<le> tp"
      "\<forall>y \<in> set xs. \<exists>ty. key y = Inr ty \<and> ty \<le> tp"
      by blast
    with False k show ?thesis
      by (auto intro!: exI [of _ p] exI [of _ tp])
  qed
qed

lemma max_from_unreadable:
  assumes "\<exists>x \<in> set xs. \<exists>e. key x = Inl e"
  shows "\<exists>e. max_from key best kbest xs = Inl e"
  using assms
proof (induction xs arbitrary: best kbest)
  case Nil
  then show ?case by simp
next
  case (Cons x xs)
  show ?case
  proof (cases "key x")
    case (Inl e)
    then show ?thesis by simp
  next
    case (Inr k)
    with Cons.prems have "\<exists>y \<in> set xs. \<exists>e. key y = Inl e"
      by auto
    from Cons.IH [OF this] Inr show ?thesis
      by simp
  qed
qed

lemma max_by_newest:
  assumes "readable E (c # cs)"
  shows "\<exists>p. max_by (getmtime E) c cs = Inr p \<and> newest E (c # cs) p"
proof -
  from assms obtain k where k: "getmtime E c = Inr k"
    and rest: "\<forall>x \<in> set cs. \<exists>t. getmtime E x = Inr t"
    by (auto simp add: readable_def)
  from max_from_readable [OF k rest] obtain p tp where
    m: "max_from (getmtime E) c k cs = Inr p" and "p \<in> set (c # cs)"
    and "getmtime E p = Inr tp" and "k \<le> tp"
    and "\<forall>x \<in> set cs. \<exists>tx. getmtime E x = Inr tx \<and> tx \<le> tp"
    by blast
  then have "newest E (c # cs) p"
    using k by (auto simp add: newest_def)
  with m k show ?thesis
    by (simp add: max_by_def)
qed

lemma max_by_raises:
  assumes "\<not> readable E (c # cs)"
  shows "\<exists>e. max_by (getmtime E) c cs = Inl e"
proof (cases "getmtime E c")
  case (Inl e)
  then show ?thesis by (simp add: max_by_def)
next
  case (Inr k)
  with assms obtain x where "x \<in> set cs" and "\<forall>t. getmtime E x \<noteq> Inr t"
    by (auto simp add: readable_def)
  then have "\<exists>x \<in> set cs. \<exists>e. getmtime E x = Inl e"
    by (cases "getmtime E x") auto
  from max_from_unreadable [OF this] Inr show ?thesis
    by (simp add: max_by_def)
qed

lemma pick_txt_output_listed:
  assumes "\<not> exists E (path_join outdir (basename @ str ''.txt''))"
    and "listdir E outdir = Inr names"
    and "cands = (if txt_files outdir names basename = [] then txt_files outdir names []
                  else txt_files outdir names basename)"
  shows "pick_txt_output E outdir basename w =
     (case cands of
        c # cs \<Rightarrow>
          (case max_by (getmtime E) c cs of
             Inl e \<Rightarrow> (Inl e, w)
           | Inr latest \<Rightarrow>
               (Inr (Some latest), print (str ''[i] Found TXT output (newest): '' @ latest) w))
      | [] \<Rightarrow>
          (Inr None, print (str ''[x] Couldn't find the .txt output. Check whisper logs.'') w))"
  unfolding assms(3) pick_txt_output_def txt_files_def startswith_def
  using assms(1,2)
  by (simp only: Let_def if_False sum.case prefix_Nil simp_thms prefix_bot.bot_least)


lemma concat_map_if: "concat (map (\<lambda>x. if P x then [f x] else []) xs) = map f (filter P xs)"
  by (induction xs) simp_all

lemma txt_files_any_empty: "txt_files outdir names [] = [] \<Longrightarrow> txt_files outdir names pre = []"
  by (auto simp add: txt_files_def concat_map_if filter_empty_conv startswith_def)



lemma pick_txt_output_spawned: "spawned (snd (pick_txt_output E outdir basename w)) = spawned w"
  by (simp add: pick_txt_output_def Let_def split: sum.split list.split)


lemmas run_simps = folder_def machine_def txt_files_def newest_def readable_def path_join_def
  startswith_def endswith_def suffix_to_prefix str_def Let_def


section \<open>The whole run\<close>

lemma andthen_Inr: "andthen (Inr x, w) f = f x w"
  by (simp add: andthen_def)

lemma andthen_Inl: "andthen (Inl e, w) f = (Inl e, w)"
  by (simp add: andthen_def)

lemma ensure_cmd_on_path_found:
  "which E cmd \<noteq> None \<Longrightarrow> ensure_cmd_on_path E cmd help_hint w = (Inr (), w)"
  by (simp add: ensure_cmd_on_path_def)

lemma main_no_url:
  assumes "which E (str ''ffmpeg'') \<noteq> None" and "which E (str ''whisper'') \<noteq> None"
    and "answer w 2 = []"
  shows "main E w = (Inl (SystemExit 1), snd (prompt_all_inputs E (snd (prompt_mode w))))"
proof -
  obtain mode w1 where pm: "prompt_mode w = (mode, w1)"
    by (cases "prompt_mode w")
  have "answer w1 1 = []"
    using prompt_mode_answer [of w 1] pm assms(3) by (simp add: numeral_2_eq_2)
  then have "fst (prompt_all_inputs E w1) = Inl (SystemExit 1)"
    by (rule prompt_all_inputs_no_url)
  then obtain w2 where pa: "prompt_all_inputs E w1 = (Inl (SystemExit 1), w2)"
    by (cases "prompt_all_inputs E w1") simp
  have "main E w = (Inl (SystemExit 1), w2)"
    unfolding main_def
    by (simp only: ensure_cmd_on_path_found [OF assms(1)] ensure_cmd_on_path_found [OF assms(2)]
          andthen_Inr andthen_Inl pm pa Let_def case_prod_conv)
  then show ?thesis by (simp add: pm pa)
qed

text \<open>
  C9. When both commands are installed and the answer to the URL prompt (the third
  answer of the run, after the mode and the directory) is empty once stripped, or
  standard input has ended before it, \<open>main\<close> ends with \<open>sys.exit(1)\<close>, its last output
  is the error message, and no child process has been started.
\<close>

theorem empty_url_exits_before_download:
  assumes "which E (str ''ffmpeg'') \<noteq> None" and "which E (str ''whisper'') \<noteq> None"
    and "answer w 2 = []"
  shows "fst (main E w) = Inl (SystemExit 1)
         \<and> exit_status (fst (main E w)) = 1
         \<and> last (stdout (snd (main E w))) = str ''[x] No URL provided. Exiting.'' @ [10]
         \<and> spawned (snd (main E w)) = spawned w"
proof -
  have url: "answer (snd (prompt_mode w)) 1 = []"
    using prompt_mode_answer [of w 1] assms(3) by (simp add: numeral_2_eq_2)
  show ?thesis
    unfolding main_no_url [OF assms]
    using prompt_all_inputs_no_url(2,3) [OF url, of E] prompt_mode_spawned [of w]
    by (simp add: exit_status_def)
qed

theorem empty_url_exits_before_download_witness:
  "which machine (str ''ffmpeg'') \<noteq> None \<and> which machine (str ''whisper'') \<noteq> None
   \<and> answer (typed [str ''2'', str ''out'', str ''   '']) 2 = []
   \<and> fst (main machine (typed [str ''2'', str ''out'', str ''   ''])) = Inl (SystemExit 1)
   \<and> spawned (snd (main machine (typed [str ''2'', str ''out'', str ''   '']))) = []"
proof -
  have 1: "which machine (str ''ffmpeg'') \<noteq> None" and 2: "which machine (str ''whisper'') \<noteq> None"
    by (simp_all add: machine_def)
  have 3: "answer (typed [str ''2'', str ''out'', str ''   '']) 2 = []"
    by (simp add: answer_def typed_def strip_def is_space_def str_def)
  from empty_url_exits_before_download [OF 1 2 3] 1 2 3 show ?thesis
    by (simp add: typed_def)
qed

lemma trim_after_altmanifest_accepted:
  assumes "urlsplit E url = Inr parts"
  obtains u w' where "trim_after_altmanifest E url w = (Inr u, w')" and "spawned w' = spawned w"
proof -
  have "\<exists>u. fst (trim_after_altmanifest E url w) = Inr u"
    using assms by (simp add: trim_after_altmanifest_def Let_def)
  moreover have "spawned (snd (trim_after_altmanifest E url w)) = spawned w"
    using assms by (simp add: trim_after_altmanifest_def Let_def)
  ultimately show ?thesis
    using that by (cases "trim_after_altmanifest E url w") auto
qed

lemma make_paths_accepted:
  assumes "urlsplit E url = Inr parts" and "makedirs E outdir = Inr ()"
  obtains u w' where
    "make_paths E outdir url w = (Inr (u, str ''video'', path_join outdir (str ''video'' @ str ''.mp4'')), w')"
    and "spawned w' = spawned w"
proof -
  from assms(1) obtain u w' where t: "trim_after_altmanifest E url w = (Inr u, w')"
    and s: "spawned w' = spawned w"
    by (rule trim_after_altmanifest_accepted)
  have "make_paths E outdir url w = (Inr (u, str ''video'', path_join outdir (str ''video'' @ str ''.mp4'')), w')"
    unfolding make_paths_def assms(2) by (simp only: andthen_Inr t Let_def)
  then show ?thesis using s by (rule that)
qed

lemma run_ffmpeg_result:
  assumes "makedirs E (dirname mp4) = Inr ()"
  obtains argv w' where "hd argv = str ''ffmpeg''" and "spawned w' = spawned w @ [argv]"
    and "run_ffmpeg E u mp4 w =
           (if child_exit E (length (spawned w)) argv \<noteq> 0
            then Inl (CalledProcessError (child_exit E (length (spawned w)) argv) argv)
            else Inr (), w')"
    and "child_exit E (length (spawned w)) argv = 0 \<longrightarrow> run_ffmpeg E u mp4 w = (Inr (), w')"
proof -
  let ?argv = "[str ''ffmpeg'', str ''-y'', str ''-i'', u, str ''-codec'', str ''copy'', mp4]"
  show ?thesis
  proof (cases "child_exit E (length (spawned w)) ?argv = 0")
    case True
    show ?thesis
      by (rule that [of ?argv "snd (run_ffmpeg E u mp4 w)"])
         (simp_all add: run_ffmpeg_def subprocess_run_def Let_def andthen_def assms True)
  next
    case False
    show ?thesis
      by (rule that [of ?argv "snd (run_ffmpeg E u mp4 w)"])
         (simp_all add: run_ffmpeg_def subprocess_run_def Let_def andthen_def assms False)
  qed
qed

lemma run_whisper_result:
  fixes E mp4 outdir model language device w
  defines "cmd \<equiv> whisper_cmd mp4 outdir model language device"
  defines "cmd_verbose \<equiv> cmd @ [str ''--verbose'', str ''False'']"
  defines "n \<equiv> length (spawned w)"
  shows "child_exit E n cmd_verbose = 0 \<Longrightarrow>
           fst (run_whisper E mp4 outdir model language device w) = Inr ()
           \<and> spawned (snd (run_whisper E mp4 outdir model language device w))
               = spawned w @ [cmd_verbose]"
    and "child_exit E n cmd_verbose \<noteq> 0 \<Longrightarrow>
           fst (run_whisper E mp4 outdir model language device w)
             = (if child_exit E (Suc n) cmd \<noteq> 0
                then Inl (CalledProcessError (child_exit E (Suc n) cmd) cmd) else Inr ())
           \<and> spawned (snd (run_whisper E mp4 outdir model language device w))
               = spawned w @ [cmd_verbose, cmd]"
  unfolding cmd_def cmd_verbose_def n_def
  by (cases "language = str ''auto''";
      simp add: run_whisper_def whisper_cmd_def subprocess_run_def Let_def)+


lemma main_reaches_download:
  assumes "which E (str ''ffmpeg'') \<noteq> None" and "which E (str ''whisper'') \<noteq> None"
    and "answer w 2 \<noteq> []" and "urlsplit E (answer w 2) = Inr parts"
    and "\<forall>p. makedirs E p = Inr ()"
  obtains outdir language model u mp4 device w5 where
    "spawned w5 = spawned w"
    and "main E w =
      andthen (run_ffmpeg E u mp4 w5) (\<lambda>_ w'.
        if fst (prompt_mode w) = str ''download'' then
          (Inl (SystemExit 0),
           print (str ''[i] Download completed. Exiting as requested (Download Only).'') w')
        else
          (case run_whisper E mp4 outdir model language device w' of
             (Inl (CalledProcessError rc argv), w'') \<Rightarrow>
               (Inl (SystemExit rc),
                print (str ''[x] Error while running whisper: exit code '' @ str_of_int rc
                       @ str ''.'') w'')
           | (Inl e, w'') \<Rightarrow> (Inl e, w'')
           | (Inr _, w'') \<Rightarrow>
               andthen (pick_txt_output E outdir (str ''video'') w'') (\<lambda>_ w. (Inr (), w))))"
proof -
  obtain mode w1 where pm: "prompt_mode w = (mode, w1)"
    by (cases "prompt_mode w")
  have s1: "spawned w1 = spawned w"
    using prompt_mode_spawned [of w] pm by simp
  have a1: "answer w1 1 = answer w 2"
    using prompt_mode_answer [of w 1] pm by (simp add: numeral_2_eq_2)
  with assms(3) have url: "answer w1 1 \<noteq> []" by simp
  obtain outdir language device_req model where
    pf: "fst (prompt_all_inputs E w1) = Inr (outdir, answer w1 1, language, device_req, model)"
    using prompt_all_inputs_fst [OF url, of E] by blast
  then obtain w2 where pa:
    "prompt_all_inputs E w1 = (Inr (outdir, answer w 2, language, device_req, model), w2)"
    unfolding a1 by (cases "prompt_all_inputs E w1") simp
  have s2: "spawned w2 = spawned w"
    using prompt_all_inputs_spawned [of E w1] pa s1 by simp
  from assms(5) have "makedirs E outdir = Inr ()"
    by blast
  with assms(4) obtain u w3 where
    mp: "make_paths E outdir (answer w 2) w2
           = (Inr (u, str ''video'', path_join outdir (str ''video'' @ str ''.mp4'')), w3)"
    and s3: "spawned w3 = spawned w2"
    by (rule make_paths_accepted)
  obtain device w4 where rd: "resolve_device E device_req w3 = (device, w4)"
    by (cases "resolve_device E device_req w3")
  have s4: "spawned w4 = spawned w"
    using resolve_device_spawned [of E device_req w3] rd s3 s2 by simp
  define w5 where "w5 =
    (if device \<noteq> device_req then
       print (str ''[i] Device fallback: requested='' @ [39] @ device_req @ [39]
              @ str '', effective='' @ [39] @ device @ [39] @ str ''.'') w4
     else w4)"
  have s5: "spawned w5 = spawned w"
    unfolding w5_def using s4 by simp
  have m: "mode = fst (prompt_mode w)"
    using pm by simp
  show ?thesis
    apply (rule that [of w5 u "path_join outdir (str ''video'' @ str ''.mp4'')"
          outdir model language device])
     apply (rule s5)
    unfolding main_def w5_def m [symmetric]
    apply (simp only: ensure_cmd_on_path_found [OF assms(1)] ensure_cmd_on_path_found [OF assms(2)]
          andthen_Inr pm pa mp rd Let_def case_prod_conv)
    done
qed


lemma pick_then_return_spawned:
  "spawned (snd (andthen (pick_txt_output E outdir basename w) (\<lambda>_ w. (Inr (), w)))) = spawned w"
  using pick_txt_output_spawned [of E outdir basename w]
  by (cases "pick_txt_output E outdir basename w"; cases "fst (pick_txt_output E outdir basename w)")
     (simp_all add: andthen_def)




lemma main_download_fails:
  assumes "which E (str ''ffmpeg'') \<noteq> None" and "which E (str ''whisper'') \<noteq> None"
    and "answer w 2 \<noteq> []" and "urlsplit E (answer w 2) = Inr parts"
    and "spawned w = []" and "\<forall>argv. child_exit E 0 argv = rc" and "rc \<noteq> 0"
    and "\<forall>p. makedirs E p = Inr ()"
  shows "\<exists>download. hd download = str ''ffmpeg''
           \<and> main E w = (Inl (CalledProcessError rc download), snd (main E w))
           \<and> spawned (snd (main E w)) = [download]"
proof -
  from assms(1,2,3,4,8) obtain outdir language model u mp4 device w5 where
    s5: "spawned w5 = spawned w"
    and m: "main E w =
      andthen (run_ffmpeg E u mp4 w5) (\<lambda>_ w'.
        if fst (prompt_mode w) = str ''download'' then
          (Inl (SystemExit 0),
           print (str ''[i] Download completed. Exiting as requested (Download Only).'') w')
        else
          (case run_whisper E mp4 outdir model language device w' of
             (Inl (CalledProcessError rc argv), w'') \<Rightarrow>
               (Inl (SystemExit rc),
                print (str ''[x] Error while running whisper: exit code '' @ str_of_int rc
                       @ str ''.'') w'')
           | (Inl e, w'') \<Rightarrow> (Inl e, w'')
           | (Inr _, w'') \<Rightarrow>
               andthen (pick_txt_output E outdir (str ''video'') w'') (\<lambda>_ w. (Inr (), w))))"
    by (rule main_reaches_download)
  obtain download w6 where hd: "hd download = str ''ffmpeg''"
    and s6: "spawned w6 = spawned w5 @ [download]"
    and res: "run_ffmpeg E u mp4 w5 =
           (if child_exit E (length (spawned w5)) download \<noteq> 0
            then Inl (CalledProcessError (child_exit E (length (spawned w5)) download) download)
            else Inr (), w6)"
    using assms(8) by (blast intro: run_ffmpeg_result [where w = w5 and E = E and u = u and ?mp4.0 = mp4])
  from s5 assms(5,6,7) res have ff: "run_ffmpeg E u mp4 w5 = (Inl (CalledProcessError rc download), w6)"
    by simp
  have "main E w = (Inl (CalledProcessError rc download), w6)"
    unfolding m ff by (rule andthen_Inl)
  with hd s5 s6 assms(5) show ?thesis
    by auto
qed

text \<open>
  C6 does not hold of the code. \<open>run_ffmpeg\<close> is called outside the \<open>try\<close> that guards
  \<open>run_whisper\<close>, so the \<open>CalledProcessError\<close> of a failed download leaves \<open>main\<close>
  uncaught: with an \<open>ffmpeg\<close> that returns 2 the run ends with that exception, the
  interpreter's exit status is 1 and not 2, and \<open>ffmpeg\<close> is the only child started.
\<close>

theorem download_failure_exits_with_status_1:
  "child_exit (children_exit (\<lambda>k. 2)) 0
     [str ''ffmpeg'', str ''-y'', str ''-i'', str ''https://h/v'', str ''-codec'', str ''copy'',
      str ''/work/transcripts/video.mp4''] = 2
   \<and> fst (main (children_exit (\<lambda>k. 2)) (typed [str ''2'', [], str ''https://h/v'']))
       = Inl (CalledProcessError 2
           [str ''ffmpeg'', str ''-y'', str ''-i'', str ''https://h/v'', str ''-codec'', str ''copy'',
            str ''/work/transcripts/video.mp4''])
   \<and> exit_status (fst (main (children_exit (\<lambda>k. 2)) (typed [str ''2'', [], str ''https://h/v''])))
       = 1
   \<and> spawned (snd (main (children_exit (\<lambda>k. 2)) (typed [str ''2'', [], str ''https://h/v''])))
       = [[str ''ffmpeg'', str ''-y'', str ''-i'', str ''https://h/v'', str ''-codec'',
           str ''copy'', str ''/work/transcripts/video.mp4'']]"
  by (simp add: main_def andthen_def ensure_cmd_on_path_def prompt_mode_def prompt_all_inputs_def
        make_paths_def trim_after_altmanifest_def resolve_device_def run_ffmpeg_def
        subprocess_run_def input_stripped_def input_def print_def typed_def strip_def
        is_space_def or_else_def children_exit_def path_join_def startswith_def endswith_def
        suffix_to_prefix exit_status_def machine_def urlsplit_plain_def Let_def
        str_def is_alpha_def is_scheme_char_def slice_def clamp_index_def cut_at_def
        lower_plain_def to_lower_full_def)


section \<open>The sanitizer on a query with U+0130\<close>

lemma contains_ci_find: "contains_ci E s name \<longleftrightarrow> find_str (lower E s) name \<noteq> - 1"
  by (simp add: contains_ci_def find_absent)

lemmas url_simps = machine_def urlsplit_plain_def urlunsplit_plain_def uses_netloc_def Let_def
  str_def is_alpha_def is_scheme_char_def slice_def clamp_index_def cut_at_def lower_plain_def
  to_lower_full_def rfind_def rstrip_def

text \<open>
  C1 does not hold of the code. The position of the parameter is found in the
  lower-cased query and then used as an index into the query itself; the two differ in
  length when the query holds U+0130, whose lower-case form is two code points. With
  twelve of them before the parameter, \<open>rfind\<close> sees the \<open>&\<close> that follows the
  parameter, and the URL returned still carries \<open>altManifest\<close> in its query.
\<close>

theorem trim_keeps_parameter_after_dotted_capital_i:
  "urlsplit machine
     (str ''https://h/v?n='' @ [304, 304, 304, 304, 304, 304, 304, 304, 304, 304, 304, 304]
      @ str ''&altManifest&b=2'')
     = Inr \<lparr>scheme = str ''https'', netloc = str ''h'', path = str ''/v'',
            query = str ''n='' @ [304, 304, 304, 304, 304, 304, 304, 304, 304, 304, 304, 304]
                    @ str ''&altManifest&b=2'',
            fragment = []\<rparr>
   \<and> contains_ci machine
        (str ''n='' @ [304, 304, 304, 304, 304, 304, 304, 304, 304, 304, 304, 304]
         @ str ''&altManifest&b=2'') (str ''altmanifest'')
   \<and> fst (trim_after_altmanifest machine
        (str ''https://h/v?n='' @ [304, 304, 304, 304, 304, 304, 304, 304, 304, 304, 304, 304]
         @ str ''&altManifest&b=2'') (typed []))
     = Inr (str ''https://h/v?n='' @ [304, 304, 304, 304, 304, 304, 304, 304, 304, 304, 304, 304]
            @ str ''&altManifest'')
   \<and> urlsplit machine
        (str ''https://h/v?n='' @ [304, 304, 304, 304, 304, 304, 304, 304, 304, 304, 304, 304]
         @ str ''&altManifest'')
     = Inr \<lparr>scheme = str ''https'', netloc = str ''h'', path = str ''/v'',
            query = str ''n='' @ [304, 304, 304, 304, 304, 304, 304, 304, 304, 304, 304, 304]
                    @ str ''&altManifest'',
            fragment = []\<rparr>
   \<and> contains_ci machine
        (str ''n='' @ [304, 304, 304, 304, 304, 304, 304, 304, 304, 304, 304, 304]
         @ str ''&altManifest'') (str ''altmanifest'')"
  apply (intro conjI)
      apply (simp add: url_simps)
     apply (simp add: contains_ci_find url_simps)
    apply (simp add: trim_after_altmanifest_def url_simps)
   apply (simp add: url_simps)
  apply (simp add: contains_ci_find url_simps)
  done

subsection \<open>Queries whose lower-casing keeps positions\<close>

lemma find_str_prefix: "prefix sub s \<Longrightarrow> find_str s sub = 0"
  by (cases s) simp_all

lemma find_le_occurrence: "s = ps @ sub @ ss \<Longrightarrow> find_str s sub \<le> int (length ps)"
proof (induction ps arbitrary: s)
  case Nil
  then have "prefix sub s" by simp
  then show ?case by (simp add: find_str_prefix)
next
  case (Cons p ps)
  then obtain s' where s: "s = p # s'" and s': "s' = ps @ sub @ ss"
    by simp
  from Cons.IH [OF s'] show ?case
    unfolding s by (simp add: Let_def)
qed

lemma find_first:
  assumes "sub \<noteq> []" and "int m \<le> find_str s sub"
  shows "\<not> sublist sub (take m s)"
proof
  assume "sublist sub (take m s)"
  then obtain ps ss where t: "take m s = ps @ sub @ ss"
    by (auto simp add: sublist_def)
  then have "s = ps @ sub @ (ss @ drop m s)"
    by (metis append_take_drop_id append.assoc)
  then have "find_str s sub \<le> int (length ps)"
    by (rule find_le_occurrence)
  moreover from t have "length ps + length sub + length ss \<le> m"
    by (metis length_append length_take min.cobounded2 add.assoc)
  moreover from assms(1) have "0 < length sub" by simp
  ultimately show False using assms(2) by linarith
qed

lemma rfind_all_bound:
  "rfind_all t sub \<noteq> - 1 \<Longrightarrow>
     0 \<le> rfind_all t sub \<and> rfind_all t sub + int (length sub) \<le> int (length t)"
proof (induction t)
  case Nil
  then show ?case by (simp split: if_splits)
next
  case (Cons c t)
  show ?case
  proof (cases "rfind_all t sub = - 1")
    case True
    with Cons.prems have p: "prefix sub (c # t)" and r: "rfind_all (c # t) sub = 0"
      by (simp_all add: Let_def split: if_splits)
    from p have "length sub \<le> length (c # t)"
      by (rule prefix_length_le)
    with r show ?thesis by simp
  next
    case False
    with Cons.IH show ?thesis by (simp add: Let_def)
  qed
qed

lemma length_slice: "0 \<le> j \<Longrightarrow> length (slice s 0 j) \<le> nat j"
  by (simp add: slice_def clamp_index_def Let_def)

lemma rfind_before:
  assumes "0 \<le> pos" and "rfind q (str ''&'') 0 pos \<noteq> - 1"
  shows "0 \<le> rfind q (str ''&'') 0 pos \<and> rfind q (str ''&'') 0 pos < pos"
proof -
  from assms(2) have r: "rfind_all (slice q 0 pos) (str ''&'') \<noteq> - 1"
    and e: "rfind q (str ''&'') 0 pos = rfind_all (slice q 0 pos) (str ''&'')"
    by (simp_all add: rfind_def Let_def split: if_splits)
  from length_slice [OF assms(1), of q] assms(1)
  have "int (length (slice q 0 pos)) \<le> pos"
    by linarith
  with rfind_all_bound [OF r] show ?thesis
    unfolding e by (simp add: str_def)
qed

lemma rstrip_take: "rstrip s chars = take (length (rstrip s chars)) s"
proof -
  have "rev s = takeWhile (\<lambda>c. c \<in> set chars) (rev s) @ dropWhile (\<lambda>c. c \<in> set chars) (rev s)"
    by simp
  then have "s = rev (dropWhile (\<lambda>c. c \<in> set chars) (rev s))
                 @ rev (takeWhile (\<lambda>c. c \<in> set chars) (rev s))"
    by (metis rev_append rev_rev_ident)
  then have "take (length (rstrip s chars)) s = rstrip s chars"
    unfolding rstrip_def by (metis append_eq_conv_conj)
  then show ?thesis by simp
qed

lemma slice_take: "0 \<le> j \<Longrightarrow> slice s 0 j = take (nat j) s"
  by (simp add: slice_def clamp_index_def Let_def min_def)

text \<open>
  The slip is confined to such queries. Whenever lower-casing a prefix of the query
  gives the prefix of the lower-cased query of the same length, as it does for every
  query that \<open>str.lower\<close> maps code point by code point, the query handed to
  \<open>urlunsplit\<close> is a prefix of the original one and holds no occurrence of the
  parameter, and the other four components are handed over as they were.
\<close>

lemma trim_removes_parameter:
  assumes "urlsplit E url = Inr parts"
    and "contains_ci E (query parts) (str ''altmanifest'')"
    and "\<forall>k. lower E (take k (query parts)) = take k (lower E (query parts))"
  shows "\<exists>new_query.
           fst (trim_after_altmanifest E url w) = Inr (urlunsplit E (parts\<lparr>query := new_query\<rparr>))
           \<and> prefix new_query (query parts)
           \<and> \<not> contains_ci E new_query (str ''altmanifest'')"
proof -
  let ?q = "query parts"
  let ?name = "str ''altmanifest''"
  let ?pos = "find_str (lower E ?q) ?name"
  let ?amp = "rfind ?q (str ''&'') 0 ?pos"
  define nq where "nq = (if ?amp = - 1 then [] else rstrip (slice ?q 0 ?amp) (str ''&''))"
  have name: "?name \<noteq> []"
    by (simp add: str_def)
  from assms(2) have found: "?pos \<noteq> - 1"
    by (simp add: contains_ci_def find_absent)
  with find_ge [of "lower E ?q" ?name] have pos: "0 \<le> ?pos"
    by linarith
  have q: "?q \<noteq> []"
  proof
    assume e: "?q = []"
    from assms(3) have "lower E (take 0 ?q) = take 0 (lower E ?q)"
      by blast
    with e have "lower E ?q = []" by simp
    with assms(2) name show False
      by (simp add: contains_ci_def)
  qed
  have rec: "\<lparr>scheme = scheme parts, netloc = netloc parts, path = path parts,
              query = nq, fragment = fragment parts\<rparr> = parts\<lparr>query := nq\<rparr>"
    by simp
  have "fst (trim_after_altmanifest E url w)
          = Inr (urlunsplit E \<lparr>scheme = scheme parts, netloc = netloc parts, path = path parts,
                                 query = nq, fragment = fragment parts\<rparr>)"
    unfolding nq_def using assms(1) q found
    by (simp add: trim_after_altmanifest_def Let_def)
  then have result:
    "fst (trim_after_altmanifest E url w) = Inr (urlunsplit E (parts\<lparr>query := nq\<rparr>))"
    unfolding rec .
  have "\<exists>k. nq = take k ?q \<and> int k \<le> ?pos"
  proof (cases "?amp = - 1")
    case True
    then have "nq = take 0 ?q" by (simp add: nq_def)
    with pos show ?thesis by (metis of_nat_0)
  next
    case False
    with rfind_before [OF pos] have amp: "0 \<le> ?amp" "?amp < ?pos"
      by simp_all
    let ?t = "take (nat ?amp) ?q"
    from False amp have "nq = rstrip ?t (str ''&'')"
      by (simp add: nq_def slice_take)
    then have "nq = take (length nq) ?t"
      using rstrip_take [of ?t "str ''&''"] by simp
    then have "nq = take (min (length nq) (nat ?amp)) ?q"
      by simp
    moreover have "int (min (length nq) (nat ?amp)) \<le> ?pos"
      using amp by linarith
    ultimately show ?thesis by blast
  qed
  then obtain k where k: "nq = take k ?q" and le: "int k \<le> ?pos"
    by blast
  have pre: "prefix nq ?q"
    unfolding k by (rule take_is_prefix)
  have "lower E nq = take k (lower E ?q)"
    unfolding k using assms(3) by blast
  with find_first [OF name le] have "\<not> contains_ci E nq ?name"
    by (simp add: contains_ci_def)
  with result pre show ?thesis by blast
qed


lemma lower_plain_take:
  assumes "304 \<notin> set s"
  shows "lower_plain (take k s) = take k (lower_plain s)"
proof -
  have "lower_plain t = map (\<lambda>c. if 65 \<le> c \<and> c \<le> 90 then c + 32 else c) t"
    if "304 \<notin> set t" for t
    using that by (induction t) (simp_all add: lower_plain_def to_lower_full_def)
  moreover from assms have "304 \<notin> set (take k s)"
    by (auto dest: in_set_takeD)
  ultimately show ?thesis
    using assms by (simp add: take_map)
qed

lemma trim_removes_parameter_plain:
  assumes "urlsplit machine url = Inr parts"
    and "contains_ci machine (query parts) (str ''altmanifest'')"
    and "304 \<notin> set (query parts)"
  shows "\<exists>new_query.
           fst (trim_after_altmanifest machine url w)
             = Inr (urlunsplit machine (parts\<lparr>query := new_query\<rparr>))
           \<and> prefix new_query (query parts)
           \<and> \<not> contains_ci machine new_query (str ''altmanifest'')"
proof -
  have "lower machine = lower_plain"
    by (simp add: machine_def)
  with assms(3) have "\<forall>k. lower machine (take k (query parts)) = take k (lower machine (query parts))"
    by (simp add: lower_plain_take)
  with assms(1,2) show ?thesis
    by (rule trim_removes_parameter)
qed

end
